theory Spec2Isabelle
  imports Main "HOL-Library.Word"
begin

section \<open>Severities (LogLevel)\<close>

text \<open>
  \<^verbatim>\<open>type LogLevel byte\<close>: a severity is one byte. The six constants are numbered by
  \<^verbatim>\<open>iota\<close> in the order of their declaration.
\<close>

type_synonym LogLevel = "8 word"

definition INFO :: LogLevel where "INFO = 0"
definition WARN :: LogLevel where "WARN = 1"
definition ERROR :: LogLevel where "ERROR = 2"
definition CRITICAL :: LogLevel where "CRITICAL = 3"
definition FATAL :: LogLevel where "FATAL = 4"
definition DEBUG :: LogLevel where "DEBUG = 5"

text \<open>The two package-level lookup tables, as association lists read as maps.\<close>

definition logLevelNameToValue :: "string \<rightharpoonup> LogLevel" where
  "logLevelNameToValue =
     map_of [(''INFO'', INFO), (''WARN'', WARN), (''ERROR'', ERROR),
             (''CRITICAL'', CRITICAL), (''FATAL'', FATAL), (''DEBUG'', DEBUG)]"

definition logLevelValueToName :: "LogLevel \<rightharpoonup> string" where
  "logLevelValueToName =
     map_of [(INFO, ''INFO''), (WARN, ''WARN''), (ERROR, ''ERROR''),
             (CRITICAL, ''CRITICAL''), (FATAL, ''FATAL''), (DEBUG, ''DEBUG'')]"

definition String :: "LogLevel \<Rightarrow> string" where
  "String l = (case logLevelValueToName l of Some v \<Rightarrow> v | None \<Rightarrow> [])"

definition validLevel :: "LogLevel \<Rightarrow> bool" where
  "validLevel level = (INFO \<le> level \<and> level \<le> DEBUG)"

section \<open>Errors\<close>

text \<open>
  One constructor for each \<^verbatim>\<open>fmt.Errorf\<close> of the package, carrying the values the
  message is formatted from.
\<close>

datatype error =
    LevelAlreadySet LogLevel
  | LevelNotSet LogLevel
  | BackendExists string
  | BackendMissing string
  | InvalidLogLevel LogLevel
  | LogLevelNotString string
  | InvalidLogLevelName string
  | MarshalFailed error
  | PostFailed string

section \<open>Log entries\<close>

record LogEntry =
  Level :: LogLevel
  Caller :: string
  Path :: string
  File :: string
  Line :: int
  Message :: string

text \<open>
  \<^verbatim>\<open>filepath.Split\<close> with the separator \<^verbatim>\<open>/\<close>: the path is cut right after its last
  separator; with no separator the directory is empty.
\<close>

definition filepath_Split :: "string \<Rightarrow> string \<times> string" where
  "filepath_Split p =
     (let f = rev (takeWhile (\<lambda>c. c \<noteq> CHR ''/'') (rev p))
      in (take (length p - length f) p, f))"

text \<open>
  \<^verbatim>\<open>buildLogEntry\<close> asks the runtime for the calling frame. The answer is an input of
  the model: \<open>None\<close> when \<^verbatim>\<open>runtime.Caller\<close> reports \<^verbatim>\<open>!ok\<close>, otherwise the function
  name (\<open>None\<close> when \<^verbatim>\<open>runtime.FuncForPC\<close> is nil), the file and the line.
\<close>

type_synonym frame = "(string option \<times> string \<times> int) option"

definition buildLogEntry :: "frame \<Rightarrow> LogLevel \<Rightarrow> string \<Rightarrow> LogEntry" where
  "buildLogEntry fr level message =
     (case fr of
        None \<Rightarrow>
          \<lparr>Level = level, Caller = ''???'', Path = [], File = ''???'', Line = 0,
           Message = message\<rparr>
      | Some (fn, file, line) \<Rightarrow>
          (let fname = (case fn of None \<Rightarrow> ''???'' | Some n \<Rightarrow> n);
               (p, f) = filepath_Split file
           in \<lparr>Level = level, Caller = fname, Path = p, File = f, Line = line,
               Message = message\<rparr>))"

section \<open>The Logger: level set and backend registry\<close>

text \<open>
  A value of the interface type \<^verbatim>\<open>Backend\<close> is one of the package's two
  implementations or an implementation of the caller's, which the type parameter
  stands for. An \<^verbatim>\<open>HttpClientBackend\<close> is a reference, named by a number.
\<close>

datatype 'u Backend =
    PrintBackend LogLevel
  | HttpClientBackend nat
  | UserBackend 'u

text \<open>
  \<^verbatim>\<open>map[LogLevel]struct{}\<close> and \<^verbatim>\<open>map[string]Backend\<close> are maps. The methods are
  modelled as called one after the other: a method is a function from the Logger
  before the call to the returned error and the Logger after it.
\<close>

record 'u Logger =
  logLevels :: "LogLevel \<rightharpoonup> unit"
  backends :: "string \<rightharpoonup> 'u Backend"

definition defaultLevels :: "LogLevel \<rightharpoonup> unit" where
  "defaultLevels =
     map_of [(INFO, ()), (WARN, ()), (ERROR, ()), (CRITICAL, ()), (FATAL, ())]"

definition NewLogger :: "'u Logger" where
  "NewLogger = \<lparr>logLevels = Map.empty, backends = Map.empty\<rparr>"

definition copyMap :: "(LogLevel \<rightharpoonup> unit) \<Rightarrow> (LogLevel \<rightharpoonup> unit)" where
  "copyMap original = Map.empty ++ original"

definition NewLoggerWithDefaults :: "'u Logger" where
  "NewLoggerWithDefaults =
     \<lparr>logLevels = copyMap defaultLevels,
      backends = Map.empty(''print'' \<mapsto> PrintBackend ERROR)\<rparr>"

definition levelSet :: "'u Logger \<Rightarrow> LogLevel \<Rightarrow> bool" where
  "levelSet l level = (logLevels l level \<noteq> None)"

definition backendAdded :: "'u Logger \<Rightarrow> string \<Rightarrow> bool" where
  "backendAdded l name = (backends l name \<noteq> None)"

definition AddLevel :: "'u Logger \<Rightarrow> LogLevel \<Rightarrow> error option \<times> 'u Logger" where
  "AddLevel l level =
     (if \<not> levelSet l level \<and> validLevel level
      then (None, l\<lparr>logLevels := (logLevels l)(level \<mapsto> ())\<rparr>)
      else (Some (LevelAlreadySet level), l))"

definition RemoveLevel :: "'u Logger \<Rightarrow> LogLevel \<Rightarrow> error option \<times> 'u Logger" where
  "RemoveLevel l level =
     (if levelSet l level
      then (None, l\<lparr>logLevels := (logLevels l)(level := None)\<rparr>)
      else (Some (LevelNotSet level), l))"

definition AddBackend ::
  "'u Logger \<Rightarrow> string \<Rightarrow> 'u Backend \<Rightarrow> error option \<times> 'u Logger" where
  "AddBackend l name backend =
     (if \<not> backendAdded l name
      then (None, l\<lparr>backends := (backends l)(name \<mapsto> backend)\<rparr>)
      else (Some (BackendExists name), l))"

definition GetBackend :: "'u Logger \<Rightarrow> string \<Rightarrow> (error + 'u Backend) \<times> 'u Logger" where
  "GetBackend l name =
     (case backends l name of
        Some b \<Rightarrow> (Inr b, l)
      | None \<Rightarrow> (Inl (BackendMissing name), l))"

definition RemoveBackend ::
  "'u Logger \<Rightarrow> string \<Rightarrow> 'u Backend \<Rightarrow> error option \<times> 'u Logger" where
  "RemoveBackend l name backend =
     (if backendAdded l name
      then (None, l\<lparr>backends := (backends l)(name := None)\<rparr>)
      else (Some (BackendMissing name), l))"

section \<open>Leveled log calls\<close>

text \<open>
  \<^verbatim>\<open>sendToBackends\<close> ranges over the backend map, in the unspecified order of a Go map,
  and calls \<^verbatim>\<open>Log(entry)\<close> on every backend. The calls made are kept by the name the
  backend is registered under: \<open>Some (b, entry)\<close> is the call \<^verbatim>\<open>b.Log(entry)\<close>.
\<close>

type_synonym 'u calls = "string \<rightharpoonup> ('u Backend \<times> LogEntry)"

definition sendToBackends :: "'u Logger \<Rightarrow> LogEntry \<Rightarrow> 'u calls" where
  "sendToBackends l entry = (\<lambda>name. map_option (\<lambda>b. (b, entry)) (backends l name))"

definition log :: "'u Logger \<Rightarrow> frame \<Rightarrow> LogLevel \<Rightarrow> string \<Rightarrow> 'u calls" where
  "log l fr level message = sendToBackends l (buildLogEntry fr level message)"

text \<open>
  A leveled call returns the calls made on the backends and the status of
  \<^verbatim>\<open>os.Exit\<close> when the process is ended. The message is the string that
  \<^verbatim>\<open>fmt.Sprint\<close> or \<^verbatim>\<open>fmt.Sprintf\<close> built from the arguments, so \<^verbatim>\<open>Info\<close> and
  \<^verbatim>\<open>Infof\<close> are one function of the model, and so on for each level.
\<close>

definition Info :: "'u Logger \<Rightarrow> frame \<Rightarrow> string \<Rightarrow> 'u calls \<times> int option" where
  "Info l fr message =
     (if levelSet l INFO then (log l fr INFO message, None) else (Map.empty, None))"

definition Warn :: "'u Logger \<Rightarrow> frame \<Rightarrow> string \<Rightarrow> 'u calls \<times> int option" where
  "Warn l fr message =
     (if levelSet l WARN then (log l fr WARN message, None) else (Map.empty, None))"

definition Error :: "'u Logger \<Rightarrow> frame \<Rightarrow> string \<Rightarrow> 'u calls \<times> int option" where
  "Error l fr message =
     (if levelSet l ERROR then (log l fr ERROR message, None) else (Map.empty, None))"

definition Critical :: "'u Logger \<Rightarrow> frame \<Rightarrow> string \<Rightarrow> 'u calls \<times> int option" where
  "Critical l fr message =
     (if levelSet l CRITICAL then (log l fr CRITICAL message, None) else (Map.empty, None))"

definition Debug :: "'u Logger \<Rightarrow> frame \<Rightarrow> string \<Rightarrow> 'u calls \<times> int option" where
  "Debug l fr message =
     (if levelSet l DEBUG then (log l fr DEBUG message, None) else (Map.empty, None))"

definition Fatal :: "'u Logger \<Rightarrow> frame \<Rightarrow> string \<Rightarrow> 'u calls \<times> int option" where
  "Fatal l fr message = (log l fr FATAL message, Some 1)"

definition Fatalf :: "'u Logger \<Rightarrow> frame \<Rightarrow> string \<Rightarrow> 'u calls \<times> int option" where
  "Fatalf l fr message = (log l fr FATAL message, Some 1)"

section \<open>JSON encoding of a batch\<close>

text \<open>
  \<^verbatim>\<open>json.Marshal\<close> of a Go string: the text between double quotes, with the quote,
  the backslash, the control characters and \<^verbatim>\<open><\<close>, \<^verbatim>\<open>>\<close>, \<^verbatim>\<open>&\<close> escaped
  (backspace and form feed by their short forms, as current Go releases write them).
  A \<open>string\<close> is a sequence of bytes; bytes from 128 on are copied, as
  \<^verbatim>\<open>encoding/json\<close> does with well-formed UTF-8 other than U+2028 and U+2029.
\<close>

definition hex_digit :: "nat \<Rightarrow> char" where
  "hex_digit n = ''0123456789abcdef'' ! (n mod 16)"

definition json_escape :: "char \<Rightarrow> string" where
  "json_escape c =
     (if c = CHR 0x22 then [CHR 0x5C, CHR 0x22]
      else if c = CHR 0x5C then [CHR 0x5C, CHR 0x5C]
      else if c = CHR 0x08 then [CHR 0x5C, CHR ''b'']
      else if c = CHR 0x0C then [CHR 0x5C, CHR ''f'']
      else if c = CHR 0x0A then [CHR 0x5C, CHR ''n'']
      else if c = CHR 0x0D then [CHR 0x5C, CHR ''r'']
      else if c = CHR 0x09 then [CHR 0x5C, CHR ''t'']
      else if (of_char c :: nat) < 32 \<or> c = CHR ''<'' \<or> c = CHR ''>'' \<or> c = CHR ''&''
        then [CHR 0x5C, CHR ''u'', CHR ''0'', CHR ''0'',
              hex_digit (of_char c div 16), hex_digit (of_char c)]
      else [c])"

definition json_string :: "string \<Rightarrow> string" where
  "json_string s = CHR 0x22 # concat (map json_escape s) @ [CHR 0x22]"

text \<open>A Go \<^verbatim>\<open>int\<close> in decimal, as \<^verbatim>\<open>json.Marshal\<close> writes it.\<close>

fun decimal :: "nat \<Rightarrow> string" where
  "decimal n =
     (if n < 10 then [''0123456789'' ! n]
      else decimal (n div 10) @ [''0123456789'' ! (n mod 10)])"

definition json_int :: "int \<Rightarrow> string" where
  "json_int i = (if i < 0 then CHR ''-'' # decimal (nat (- i)) else decimal (nat i))"

definition MarshalJSON :: "LogLevel \<Rightarrow> error + string" where
  "MarshalJSON l =
     (case logLevelValueToName l of
        None \<Rightarrow> Inl (InvalidLogLevel l)
      | Some s \<Rightarrow> Inr (json_string s))"

text \<open>
  \<^verbatim>\<open>json.Unmarshal(data, &s)\<close> into a string variable is the library's: it is an input
  of the model, \<open>None\<close> when it returns an error and otherwise the value of \<^verbatim>\<open>s\<close>
  after it. \<^verbatim>\<open>UnmarshalJSON\<close> takes the level behind the receiver and returns the error
  and the level behind the receiver afterwards.
\<close>

type_synonym string_decoder = "string \<Rightarrow> string option"

definition UnmarshalJSON ::
  "string_decoder \<Rightarrow> LogLevel \<Rightarrow> string \<Rightarrow> error option \<times> LogLevel" where
  "UnmarshalJSON unm l data =
     (case unm data of
        None \<Rightarrow> (Some (LogLevelNotString data), l)
      | Some s \<Rightarrow>
          (case logLevelNameToValue s of
             None \<Rightarrow> (Some (InvalidLogLevelName s), l)
           | Some v \<Rightarrow> (None, v)))"

text \<open>
  A Go slice is \<open>None\<close> when it is nil. \<^verbatim>\<open>logbuffer\<close> holds the batch; its JSON
  object has the one field \<^verbatim>\<open>logentries\<close>, and a \<^verbatim>\<open>LogEntry\<close> is written with the
  keys of its field tags in the order of the fields.
\<close>

type_synonym 'a slice = "'a list option"

definition go_len :: "'a slice \<Rightarrow> int" where
  "go_len s = (case s of None \<Rightarrow> 0 | Some xs \<Rightarrow> int (length xs))"

definition go_append :: "'a slice \<Rightarrow> 'a \<Rightarrow> 'a slice" where
  "go_append s x = (case s of None \<Rightarrow> Some [x] | Some xs \<Rightarrow> Some (xs @ [x]))"

definition reslice0 :: "'a slice \<Rightarrow> 'a slice" where
  "reslice0 s = (case s of None \<Rightarrow> None | Some xs \<Rightarrow> Some [])"

record logbuffer =
  Entries :: "LogEntry slice"

definition marshal_LogEntry :: "LogEntry \<Rightarrow> error + string" where
  \<open>marshal_LogEntry e =
     (case MarshalJSON (Level e) of
        Inl err \<Rightarrow> Inl err
      | Inr lv \<Rightarrow>
          Inr (''{"level":'' @ lv @ '',"caller":'' @ json_string (Caller e)
               @ '',"path":'' @ json_string (Path e)
               @ '',"file":'' @ json_string (File e)
               @ '',"line":'' @ json_int (Line e)
               @ '',"message":'' @ json_string (Message e) @ ''}''))\<close>

fun marshal_elems :: "LogEntry list \<Rightarrow> error + string" where
  "marshal_elems [] = Inr []"
| "marshal_elems [e] = marshal_LogEntry e"
| "marshal_elems (e # es) =
     (case marshal_LogEntry e of
        Inl err \<Rightarrow> Inl err
      | Inr x \<Rightarrow>
          (case marshal_elems es of
             Inl err \<Rightarrow> Inl err
           | Inr xs \<Rightarrow> Inr (x @ '','' @ xs)))"

definition marshal_logbuffer :: "logbuffer \<Rightarrow> error + string" where
  \<open>marshal_logbuffer b =
     (case Entries b of
        None \<Rightarrow> Inr ''{"logentries":null}''
      | Some es \<Rightarrow>
          (case marshal_elems es of
             Inl err \<Rightarrow> Inl err
           | Inr xs \<Rightarrow> Inr (''{"logentries":['' @ xs @ '']}'')))\<close>

section \<open>The HTTP backend\<close>

text \<open>
  \<^verbatim>\<open>http.Post(url, body)\<close> is the network: an input of the model, \<open>None\<close> when the
  request succeeds and otherwise the text of the error. \<^verbatim>\<open>doSend\<close> returns the requests
  it issued and its error.
\<close>

type_synonym http_post = "string \<Rightarrow> string \<Rightarrow> string option"

definition doSend ::
  "http_post \<Rightarrow> string \<Rightarrow> logbuffer \<Rightarrow> (string \<times> string) list \<times> error option" where
  "doSend post url buffer =
     (case marshal_logbuffer buffer of
        Inl err \<Rightarrow> ([], Some (MarshalFailed err))
      | Inr data \<Rightarrow>
          (case post url data of
             Some err \<Rightarrow> ([(url, data)], Some (PostFailed err))
           | None \<Rightarrow> ([(url, data)], None)))"

text \<open>
  The state of the goroutine \<^verbatim>\<open>startClient\<close>: its local \<^verbatim>\<open>buffer\<close>, and what it has
  done so far: the batches it called \<^verbatim>\<open>doSend\<close> with, the requests issued, and the
  errors handed to \<^verbatim>\<open>logInternal\<close>.
\<close>

record client =
  buffer :: logbuffer
  sent :: "logbuffer list"
  requests :: "(string \<times> string) list"
  internal :: "error list"

text \<open>
  Both sending branches of the loop run the same four lines: \<^verbatim>\<open>doSend\<close>, report the
  error if there is one, empty the buffer.
\<close>

definition send_and_clear :: "http_post \<Rightarrow> string \<Rightarrow> client \<Rightarrow> client" where
  "send_and_clear post url s =
     (let (reqs, err) = doSend post url (buffer s)
      in \<lparr>buffer = \<lparr>Entries = reslice0 (Entries (buffer s))\<rparr>,
          sent = sent s @ [buffer s],
          requests = requests s @ reqs,
          internal = internal s @ (case err of None \<Rightarrow> [] | Some e \<Rightarrow> [e])\<rparr>)"

text \<open>
  One iteration of the loop is one case of the \<^verbatim>\<open>select\<close>: an entry received from
  \<^verbatim>\<open>logchan\<close>, a tick of the timer, or the closed \<^verbatim>\<open>stop\<close> channel.
\<close>

datatype event = Recv LogEntry | Tick | Stop

definition on_entry :: "http_post \<Rightarrow> string \<Rightarrow> int \<Rightarrow> client \<Rightarrow> LogEntry \<Rightarrow> client" where
  "on_entry post url bufsize s entry =
     (let s' = s\<lparr>buffer := \<lparr>Entries = go_append (Entries (buffer s)) entry\<rparr>\<rparr>
      in if bufsize > 0 \<and> go_len (Entries (buffer s')) < bufsize then s'
         else send_and_clear post url s')"

definition on_tick :: "http_post \<Rightarrow> string \<Rightarrow> client \<Rightarrow> client" where
  "on_tick post url s =
     (if go_len (Entries (buffer s)) > 0 then send_and_clear post url s else s)"

text \<open>
  The loop over the cases the \<^verbatim>\<open>select\<close> takes, in order. The \<^verbatim>\<open>break\<close> of the
  \<^verbatim>\<open>stop\<close> case leaves the \<^verbatim>\<open>select\<close> statement, which is the innermost statement
  around it, and the \<^verbatim>\<open>for\<close> goes on to its next iteration. The function returns the
  state once the given cases are consumed; the goroutine itself then waits for the next.
\<close>

fun client_loop :: "http_post \<Rightarrow> string \<Rightarrow> int \<Rightarrow> client \<Rightarrow> event list \<Rightarrow> client" where
  "client_loop post url bufsize s [] = s"
| "client_loop post url bufsize s (Recv entry # evs) =
     client_loop post url bufsize (on_entry post url bufsize s entry) evs"
| "client_loop post url bufsize s (Tick # evs) =
     client_loop post url bufsize (on_tick post url s) evs"
| "client_loop post url bufsize s (Stop # evs) =
     client_loop post url bufsize s evs"

definition startClient :: "http_post \<Rightarrow> string \<Rightarrow> int \<Rightarrow> event list \<Rightarrow> client" where
  "startClient post url bufsize evs =
     client_loop post url bufsize
       \<lparr>buffer = \<lparr>Entries = None\<rparr>, sent = [], requests = [], internal = []\<rparr> evs"

text \<open>The entries among the cases taken by the loop, in the order of their receipt.\<close>

fun received :: "event list \<Rightarrow> LogEntry list" where
  "received [] = []"
| "received (Recv entry # evs) = entry # received evs"
| "received (Tick # evs) = received evs"
| "received (Stop # evs) = received evs"

section \<open>Reachable Logger states\<close>

text \<open>
  The fields of a Logger are unexported: a Logger is made by one of the two
  constructors and changed only by the four registry methods.
\<close>

inductive reachable :: "'u Logger \<Rightarrow> bool" where
  new: "reachable NewLogger"
| defaults: "reachable NewLoggerWithDefaults"
| add_level: "reachable l \<Longrightarrow> reachable (snd (AddLevel l level))"
| remove_level: "reachable l \<Longrightarrow> reachable (snd (RemoveLevel l level))"
| add_backend: "reachable l \<Longrightarrow> reachable (snd (AddBackend l name b))"
| remove_backend: "reachable l \<Longrightarrow> reachable (snd (RemoveBackend l name b))"

section \<open>Properties of the level set and the backend registry\<close>

lemmas level_defs = INFO_def WARN_def ERROR_def CRITICAL_def FATAL_def DEBUG_def

lemma validLevel_cases:
  "validLevel l \<longleftrightarrow>
     l = INFO \<or> l = WARN \<or> l = ERROR \<or> l = CRITICAL \<or> l = FATAL \<or> l = DEBUG"
proof
  assume "validLevel l"
  then have "unat l \<le> 5"
    by (simp add: validLevel_def level_defs word_le_nat_alt)
  then have "unat l = 0 \<or> unat l = 1 \<or> unat l = 2 \<or> unat l = 3 \<or> unat l = 4 \<or> unat l = 5"
    by arith
  then have "l = 0 \<or> l = 1 \<or> l = 2 \<or> l = 3 \<or> l = 4 \<or> l = 5"
    by (auto simp: word_unat_eq_iff)
  then show "l = INFO \<or> l = WARN \<or> l = ERROR \<or> l = CRITICAL \<or> l = FATAL \<or> l = DEBUG"
    by (simp add: level_defs)
next
  assume "l = INFO \<or> l = WARN \<or> l = ERROR \<or> l = CRITICAL \<or> l = FATAL \<or> l = DEBUG"
  then show "validLevel l"
    by (auto simp: validLevel_def level_defs)
qed

lemma defaults_levelSet:
  "levelSet (NewLoggerWithDefaults :: unit Logger) INFO"
  "\<not> levelSet (NewLoggerWithDefaults :: unit Logger) DEBUG"
  by (simp_all add: levelSet_def NewLoggerWithDefaults_def copyMap_def defaultLevels_def
      level_defs)

text \<open>
  Claim C8. For every Logger and every level: \<^verbatim>\<open>AddLevel\<close> of a level that is already
  in the enabled set returns an error and leaves the Logger, and so the set, as it
  was; \<^verbatim>\<open>RemoveLevel\<close> of a level that is not in the set returns an error and leaves
  the Logger as it was.
\<close>

theorem level_gate_errors:
  "(levelSet l level \<longrightarrow> AddLevel l level = (Some (LevelAlreadySet level), l)) \<and>
   (\<not> levelSet l level \<longrightarrow> RemoveLevel l level = (Some (LevelNotSet level), l))"
  by (simp add: AddLevel_def RemoveLevel_def)

theorem level_gate_errors_witness:
  "levelSet (NewLoggerWithDefaults :: unit Logger) INFO \<and>
   AddLevel (NewLoggerWithDefaults :: unit Logger) INFO =
     (Some (LevelAlreadySet INFO), NewLoggerWithDefaults) \<and>
   \<not> levelSet (NewLoggerWithDefaults :: unit Logger) DEBUG \<and>
   RemoveLevel (NewLoggerWithDefaults :: unit Logger) DEBUG =
     (Some (LevelNotSet DEBUG), NewLoggerWithDefaults)"
  using level_gate_errors [of "NewLoggerWithDefaults :: unit Logger" INFO]
    level_gate_errors [of "NewLoggerWithDefaults :: unit Logger" DEBUG]
    defaults_levelSet
  by simp

text \<open>
  Claim C9. For every Logger: \<^verbatim>\<open>AddBackend\<close> under a name that is taken returns an
  error and leaves the Logger as it was, so that after a first registration a second
  one under the same name fails and the name still maps to the first backend;
  \<^verbatim>\<open>GetBackend\<close> and \<^verbatim>\<open>RemoveBackend\<close> of a name that is not registered return an
  error and leave the Logger as it was.
\<close>

theorem backend_registry_errors:
  "(backendAdded l name \<longrightarrow> AddBackend l name b = (Some (BackendExists name), l)) \<and>
   (\<not> backendAdded l name \<longrightarrow>
      AddBackend (snd (AddBackend l name b)) name b' =
        (Some (BackendExists name), snd (AddBackend l name b)) \<and>
      backends (snd (AddBackend l name b)) name = Some b \<and>
      GetBackend l name = (Inl (BackendMissing name), l) \<and>
      RemoveBackend l name b = (Some (BackendMissing name), l))"
  by (simp add: AddBackend_def GetBackend_def RemoveBackend_def backendAdded_def)

theorem backend_registry_errors_witness:
  "backendAdded (NewLoggerWithDefaults :: unit Logger) ''print'' \<and>
   AddBackend (NewLoggerWithDefaults :: unit Logger) ''print'' (HttpClientBackend 0) =
     (Some (BackendExists ''print''), NewLoggerWithDefaults) \<and>
   \<not> backendAdded (NewLogger :: unit Logger) ''http'' \<and>
   backends (snd (AddBackend (NewLogger :: unit Logger) ''http'' (HttpClientBackend 0)))
     ''http'' = Some (HttpClientBackend 0) \<and>
   GetBackend (NewLogger :: unit Logger) ''http'' =
     (Inl (BackendMissing ''http''), NewLogger)"
  using backend_registry_errors
      [of "NewLoggerWithDefaults :: unit Logger" "''print''" "HttpClientBackend 0"]
    backend_registry_errors
      [of "NewLogger :: unit Logger" "''http''" "HttpClientBackend 0"]
  by (simp add: backendAdded_def NewLoggerWithDefaults_def NewLogger_def)

lemma defaultLevels_valid: "copyMap defaultLevels k = Some u \<Longrightarrow> validLevel k"
  by (auto simp: copyMap_def defaultLevels_def validLevel_cases split: if_splits)

lemma reachable_levels_valid: "reachable l \<Longrightarrow> levelSet l k \<Longrightarrow> validLevel k"
proof (induction arbitrary: k rule: reachable.induct)
  case new
  then show ?case by (simp add: NewLogger_def levelSet_def)
next
  case defaults
  then show ?case
    by (auto simp: NewLoggerWithDefaults_def levelSet_def dest: defaultLevels_valid)
next
  case (add_level l level)
  then show ?case
    by (auto simp: AddLevel_def levelSet_def split: if_splits)
next
  case (remove_level l level)
  then show ?case
    by (auto simp: RemoveLevel_def levelSet_def split: if_splits)
next
  case (add_backend l name b)
  then show ?case
    by (auto simp: AddBackend_def levelSet_def split: if_splits)
next
  case (remove_backend l name b)
  then show ?case
    by (auto simp: RemoveBackend_def levelSet_def split: if_splits)
qed

text \<open>
  Claim C10. \<^verbatim>\<open>AddLevel\<close> of a level that is not one of the six constants (not between
  \<^verbatim>\<open>INFO\<close> and \<^verbatim>\<open>DEBUG\<close>) returns an error and leaves the Logger as it was, and in
  every reachable Logger each enabled level is a valid one.
\<close>

theorem enabled_levels_valid:
  "(\<not> validLevel level \<longrightarrow> AddLevel l level = (Some (LevelAlreadySet level), l)) \<and>
   (reachable l \<longrightarrow> (\<forall>k. levelSet l k \<longrightarrow> validLevel k))"
  by (auto simp: AddLevel_def dest: reachable_levels_valid)

theorem enabled_levels_valid_witness:
  "\<not> validLevel 9 \<and>
   AddLevel (NewLogger :: unit Logger) 9 = (Some (LevelAlreadySet 9), NewLogger) \<and>
   reachable (snd (AddLevel (NewLogger :: unit Logger) DEBUG)) \<and>
   levelSet (snd (AddLevel (NewLogger :: unit Logger) DEBUG)) DEBUG \<and>
   validLevel DEBUG"
proof -
  have a: "\<not> validLevel 9"
    by (simp add: validLevel_def level_defs)
  have b: "reachable (snd (AddLevel (NewLogger :: unit Logger) DEBUG))"
    by (rule reachable.add_level) (rule reachable.new)
  have c: "levelSet (snd (AddLevel (NewLogger :: unit Logger) DEBUG)) DEBUG"
    by (simp add: AddLevel_def levelSet_def NewLogger_def validLevel_def level_defs)
  from a b c
    enabled_levels_valid [of 9 "NewLogger :: unit Logger"]
    enabled_levels_valid [of 9 "snd (AddLevel (NewLogger :: unit Logger) DEBUG)"]
  show ?thesis by blast
qed

section \<open>Properties of the leveled calls\<close>

text \<open>
  Claim C2. A log call at a severity is forwarded to the backends only if the severity
  is in the enabled set of the Logger. \<^verbatim>\<open>Fatal\<close> and \<^verbatim>\<open>Fatalf\<close> do not ask
  \<^verbatim>\<open>levelSet\<close>: on a Logger with no level enabled and one backend, the backend
  receives the \<^verbatim>\<open>FATAL\<close> entry, while \<^verbatim>\<open>Error\<close> on the same Logger calls no backend.
\<close>

theorem Fatal_bypasses_level_gate:
  "\<not> levelSet (snd (AddBackend (NewLogger :: unit Logger) ''print'' (PrintBackend ERROR)))
       FATAL \<and>
   fst (Fatal (snd (AddBackend (NewLogger :: unit Logger) ''print'' (PrintBackend ERROR)))
          None ''x'') ''print''
     = Some (PrintBackend ERROR, buildLogEntry None FATAL ''x'') \<and>
   fst (Fatalf (snd (AddBackend (NewLogger :: unit Logger) ''print'' (PrintBackend ERROR)))
          None ''x'') ''print''
     = Some (PrintBackend ERROR, buildLogEntry None FATAL ''x'') \<and>
   fst (Error (snd (AddBackend (NewLogger :: unit Logger) ''print'' (PrintBackend ERROR)))
          None ''x'') ''print''
     = None"
  by (simp add: Fatal_def Fatalf_def Error_def log_def sendToBackends_def AddBackend_def
      backendAdded_def NewLogger_def levelSet_def)

section \<open>Properties of the JSON encoding\<close>

lemma String_names:
  "String INFO = ''INFO''" "String WARN = ''WARN''" "String ERROR = ''ERROR''"
  "String CRITICAL = ''CRITICAL''" "String FATAL = ''FATAL''" "String DEBUG = ''DEBUG''"
  by (simp_all add: String_def logLevelValueToName_def level_defs)

lemma valueToName_String: "validLevel l \<Longrightarrow> logLevelValueToName l = Some (String l)"
  by (auto simp: validLevel_cases String_def logLevelValueToName_def level_defs)

lemma nameToValue_String: "validLevel l \<Longrightarrow> logLevelNameToValue (String l) = Some l"
  by (auto simp: validLevel_cases String_def logLevelValueToName_def
      logLevelNameToValue_def level_defs)

lemma nameToValue_Some: "logLevelNameToValue s = Some v \<Longrightarrow> validLevel v \<and> String v = s"
  by (auto simp: validLevel_cases String_def logLevelValueToName_def
      logLevelNameToValue_def level_defs split: if_splits)

lemma json_string_names:
  \<open>json_string ''INFO'' = ''"INFO"''\<close> \<open>json_string ''WARN'' = ''"WARN"''\<close>
  \<open>json_string ''ERROR'' = ''"ERROR"''\<close> \<open>json_string ''CRITICAL'' = ''"CRITICAL"''\<close>
  \<open>json_string ''FATAL'' = ''"FATAL"''\<close> \<open>json_string ''DEBUG'' = ''"DEBUG"''\<close>
  by (simp_all add: json_string_def json_escape_def)

text \<open>
  Claim C6. Let the library's decoder read the encoding of each of the six names back
  as that name. Then for every member of the enumeration \<^verbatim>\<open>MarshalJSON\<close> succeeds and
  \<^verbatim>\<open>UnmarshalJSON\<close> of its output stores the member; when the decoded string is not
  the name of a member, \<^verbatim>\<open>UnmarshalJSON\<close> returns an error and stores nothing, and so
  it does when the input is not a JSON string at all.
\<close>

theorem LogLevel_json_roundtrip:
  assumes "\<forall>k. validLevel k \<longrightarrow> unm (json_string (String k)) = Some (String k)"
  shows "(validLevel l \<longrightarrow>
            (\<exists>data. MarshalJSON l = Inr data \<and> UnmarshalJSON unm l0 data = (None, l))) \<and>
         (unm data = Some s \<and> \<not> (\<exists>k. validLevel k \<and> String k = s) \<longrightarrow>
            UnmarshalJSON unm l0 data = (Some (InvalidLogLevelName s), l0)) \<and>
         (unm data = None \<longrightarrow>
            UnmarshalJSON unm l0 data = (Some (LogLevelNotString data), l0))"
proof (intro conjI impI)
  assume v: "validLevel l"
  then have "MarshalJSON l = Inr (json_string (String l))"
    by (simp add: MarshalJSON_def valueToName_String)
  moreover from v assms have "UnmarshalJSON unm l0 (json_string (String l)) = (None, l)"
    by (simp add: UnmarshalJSON_def nameToValue_String)
  ultimately show "\<exists>data. MarshalJSON l = Inr data \<and> UnmarshalJSON unm l0 data = (None, l)"
    by blast
next
  assume a: "unm data = Some s \<and> \<not> (\<exists>k. validLevel k \<and> String k = s)"
  then have "logLevelNameToValue s = None"
    using nameToValue_Some [of s] by (cases "logLevelNameToValue s") auto
  with a show "UnmarshalJSON unm l0 data = (Some (InvalidLogLevelName s), l0)"
    by (simp add: UnmarshalJSON_def)
next
  assume "unm data = None"
  then show "UnmarshalJSON unm l0 data = (Some (LogLevelNotString data), l0)"
    by (simp add: UnmarshalJSON_def)
qed

theorem LogLevel_json_roundtrip_witness:
  \<open>validLevel CRITICAL \<and>
   MarshalJSON CRITICAL = Inr ''"CRITICAL"'' \<and>
   UnmarshalJSON
     (map_of [(''"INFO"'', ''INFO''), (''"WARN"'', ''WARN''), (''"ERROR"'', ''ERROR''),
              (''"CRITICAL"'', ''CRITICAL''), (''"FATAL"'', ''FATAL''),
              (''"DEBUG"'', ''DEBUG''), (''"TRACE"'', ''TRACE'')])
     INFO ''"CRITICAL"'' = (None, CRITICAL) \<and>
   UnmarshalJSON
     (map_of [(''"INFO"'', ''INFO''), (''"WARN"'', ''WARN''), (''"ERROR"'', ''ERROR''),
              (''"CRITICAL"'', ''CRITICAL''), (''"FATAL"'', ''FATAL''),
              (''"DEBUG"'', ''DEBUG''), (''"TRACE"'', ''TRACE'')])
     INFO ''"TRACE"'' = (Some (InvalidLogLevelName ''TRACE''), INFO) \<and>
   UnmarshalJSON
     (map_of [(''"INFO"'', ''INFO''), (''"WARN"'', ''WARN''), (''"ERROR"'', ''ERROR''),
              (''"CRITICAL"'', ''CRITICAL''), (''"FATAL"'', ''FATAL''),
              (''"DEBUG"'', ''DEBUG''), (''"TRACE"'', ''TRACE'')])
     INFO ''3'' = (Some (LogLevelNotString ''3''), INFO)\<close>
proof -
  define unm :: string_decoder where
    \<open>unm = map_of [(''"INFO"'', ''INFO''), (''"WARN"'', ''WARN''), (''"ERROR"'', ''ERROR''),
              (''"CRITICAL"'', ''CRITICAL''), (''"FATAL"'', ''FATAL''),
              (''"DEBUG"'', ''DEBUG''), (''"TRACE"'', ''TRACE'')]\<close>
  have h: "\<forall>k. validLevel k \<longrightarrow> unm (json_string (String k)) = Some (String k)"
    by (auto simp: unm_def validLevel_cases String_names json_string_names)
  have v: "validLevel CRITICAL"
    by (simp add: validLevel_cases)
  have m: \<open>MarshalJSON CRITICAL = Inr ''"CRITICAL"''\<close>
    by (simp add: MarshalJSON_def valueToName_String v String_names json_string_names)
  have t: \<open>unm ''"TRACE"'' = Some ''TRACE'' \<and>
      \<not> (\<exists>k. validLevel k \<and> String k = ''TRACE'')\<close>
    by (auto simp: unm_def validLevel_cases String_names)
  have n: "unm ''3'' = None"
    by (simp add: unm_def)
  note r = LogLevel_json_roundtrip [OF h, of CRITICAL INFO]
  from r v m have 1: \<open>UnmarshalJSON unm INFO ''"CRITICAL"'' = (None, CRITICAL)\<close>
    by fastforce
  from r [of \<open>''"TRACE"''\<close> \<open>''TRACE''\<close>] t
  have 2: \<open>UnmarshalJSON unm INFO ''"TRACE"'' = (Some (InvalidLogLevelName ''TRACE''), INFO)\<close>
    by blast
  from r [of \<open>''3''\<close>] n
  have 3: \<open>UnmarshalJSON unm INFO ''3'' = (Some (LogLevelNotString ''3''), INFO)\<close>
    by blast
  from v m 1 2 3 show ?thesis
    unfolding unm_def by blast
qed

section \<open>Properties of the HTTP backend\<close>

lemma sent_send_and_clear [simp]:
  "sent (send_and_clear post url s) = sent s @ [buffer s]"
  by (simp add: send_and_clear_def split: prod.splits)

lemma buffer_send_and_clear [simp]:
  "buffer (send_and_clear post url s) = \<lparr>Entries = reslice0 (Entries (buffer s))\<rparr>"
  by (simp add: send_and_clear_def split: prod.splits)


text \<open>
  Claim C1. Once the loop has taken the \<^verbatim>\<open>stop\<close> case, it makes no further delivery
  attempt. The loop does not end there: with \<^verbatim>\<open>bufsize\<close> 0, an entry received after the
  \<^verbatim>\<open>stop\<close> case is sent; with \<^verbatim>\<open>bufsize\<close> 5, an entry buffered before the \<^verbatim>\<open>stop\<close>
  case, and not sent by then, is sent at the next tick after it.
\<close>

theorem stop_does_not_end_deliveries:
  "sent (startClient post url 0 [Stop, Recv e]) = [\<lparr>Entries = Some [e]\<rparr>] \<and>
   sent (startClient post url 5 [Recv e, Stop]) = [] \<and>
   sent (startClient post url 5 [Recv e, Stop, Tick]) = [\<lparr>Entries = Some [e]\<rparr>]"
  by (simp add: startClient_def on_entry_def on_tick_def go_append_def go_len_def)

text \<open>
  Claim C3. With \<^verbatim>\<open>bufsize\<close> 2 and no tick of the timer, the first entry is not sent,
  and after the second entry there is exactly one call of \<^verbatim>\<open>doSend\<close>, with the two
  entries in the order of their receipt, and the buffer is empty.
\<close>

theorem flush_by_size:
  "sent (startClient post url 2 [Recv a]) = [] \<and>
   sent (startClient post url 2 [Recv a, Recv b]) = [\<lparr>Entries = Some [a, b]\<rparr>] \<and>
   buffer (startClient post url 2 [Recv a, Recv b]) = \<lparr>Entries = Some []\<rparr>"
  by (simp add: startClient_def on_entry_def go_append_def go_len_def reslice0_def)

lemma immediate_loop:
  "go_len (Entries (buffer s)) = 0 \<Longrightarrow>
   sent (client_loop post url 0 s evs) =
     sent s @ map (\<lambda>e. \<lparr>Entries = Some [e]\<rparr>) (received evs) \<and>
   go_len (Entries (buffer (client_loop post url 0 s evs))) = 0"
proof (induction evs arbitrary: s)
  case Nil
  then show ?case by simp
next
  case (Cons ev evs)
  show ?case
  proof (cases ev)
    case (Recv entry)
    let ?s = "on_entry post url 0 s entry"
    from Cons.prems have a: "sent ?s = sent s @ [\<lparr>Entries = Some [entry]\<rparr>]"
      by (auto simp: on_entry_def go_append_def go_len_def split: option.splits)
    have b: "go_len (Entries (buffer ?s)) = 0"
      by (auto simp: on_entry_def go_append_def go_len_def reslice0_def split: option.splits)
    from Cons.IH [OF b] a Recv show ?thesis by simp
  next
    case Tick
    from Cons.prems have "on_tick post url s = s" by (simp add: on_tick_def)
    with Cons.IH [OF Cons.prems] Tick show ?thesis by simp
  next
    case Stop
    with Cons.IH [OF Cons.prems] show ?thesis by simp
  qed
qed

text \<open>
  Claim C4. With \<^verbatim>\<open>bufsize\<close> 0, whatever cases the loop takes, the calls of \<^verbatim>\<open>doSend\<close>
  are one per entry received, each with that entry alone, in the order of receipt, and
  the buffer is empty between the iterations. The entry is sent in the iteration that
  receives it, by the lines that send a full buffer.
\<close>

theorem immediate_mode:
  "sent (startClient post url 0 evs) = map (\<lambda>e. \<lparr>Entries = Some [e]\<rparr>) (received evs) \<and>
   go_len (Entries (buffer (startClient post url 0 evs))) = 0 \<and>
   on_entry post url 0 s entry =
     send_and_clear post url (s\<lparr>buffer := \<lparr>Entries = go_append (Entries (buffer s)) entry\<rparr>\<rparr>)"
  using immediate_loop
    [of "\<lparr>buffer = \<lparr>Entries = None\<rparr>, sent = [], requests = [], internal = []\<rparr>" post url evs]
  by (simp add: startClient_def go_len_def on_entry_def)

lemma loop_sent_nonempty:
  "list_all (\<lambda>b. go_len (Entries b) > 0) (sent s) \<Longrightarrow>
   list_all (\<lambda>b. go_len (Entries b) > 0) (sent (client_loop post url bufsize s evs))"
proof (induction evs arbitrary: s)
  case Nil
  then show ?case by simp
next
  case (Cons ev evs)
  show ?case
  proof (cases ev)
    case (Recv entry)
    have "list_all (\<lambda>b. go_len (Entries b) > 0) (sent (on_entry post url bufsize s entry))"
      using Cons.prems
      by (auto simp: on_entry_def Let_def go_append_def go_len_def split: option.splits)
    from Cons.IH [OF this] Recv show ?thesis by simp
  next
    case Tick
    have "list_all (\<lambda>b. go_len (Entries b) > 0) (sent (on_tick post url s))"
      using Cons.prems by (auto simp: on_tick_def)
    from Cons.IH [OF this] Tick show ?thesis by simp
  next
    case Stop
    with Cons.IH [OF Cons.prems] show ?thesis by simp
  qed
qed

text \<open>
  Claim C5. At a tick, a buffer that is not empty is handed to \<^verbatim>\<open>doSend\<close> and emptied,
  and an empty buffer leaves the state as it is; and whatever cases the loop takes,
  for any \<^verbatim>\<open>bufsize\<close>, no call of \<^verbatim>\<open>doSend\<close> is made with an empty batch.
\<close>

theorem flush_on_tick:
  "(go_len (Entries (buffer s)) > 0 \<longrightarrow>
      sent (on_tick post url s) = sent s @ [buffer s] \<and>
      go_len (Entries (buffer (on_tick post url s))) = 0) \<and>
   (\<not> go_len (Entries (buffer s)) > 0 \<longrightarrow> on_tick post url s = s) \<and>
   (\<forall>b \<in> set (sent (startClient post url bufsize evs)). go_len (Entries b) > 0)"
proof -
  have "list_all (\<lambda>b. go_len (Entries b) > 0) (sent (startClient post url bufsize evs))"
    unfolding startClient_def by (rule loop_sent_nonempty) simp
  then show ?thesis
    by (auto simp: on_tick_def go_len_def reslice0_def list_all_iff split: option.splits)
qed

theorem flush_on_tick_witness:
  "go_len (Entries (buffer (startClient (\<lambda>u d. None) ''http://h'' 100
      [Recv \<lparr>Level = INFO, Caller = ''main'', Path = ''/x'', File = ''m.go'', Line = 11,
             Message = ''ok''\<rparr>]))) > 0 \<and>
   sent (on_tick (\<lambda>u d. None) ''http://h'' (startClient (\<lambda>u d. None) ''http://h'' 100
      [Recv \<lparr>Level = INFO, Caller = ''main'', Path = ''/x'', File = ''m.go'', Line = 11,
             Message = ''ok''\<rparr>])) =
     [\<lparr>Entries = Some [\<lparr>Level = INFO, Caller = ''main'', Path = ''/x'', File = ''m.go'',
        Line = 11, Message = ''ok''\<rparr>]\<rparr>] \<and>
   \<not> go_len (Entries (buffer (startClient (\<lambda>u d. None) ''http://h'' 100 []))) > 0 \<and>
   on_tick (\<lambda>u d. None) ''http://h'' (startClient (\<lambda>u d. None) ''http://h'' 100 []) =
     startClient (\<lambda>u d. None) ''http://h'' 100 [] \<and>
   sent (startClient (\<lambda>u d. None) ''http://h'' 100
      [Recv \<lparr>Level = INFO, Caller = ''main'', Path = ''/x'', File = ''m.go'', Line = 11,
             Message = ''ok''\<rparr>, Tick, Tick]) =
     [\<lparr>Entries = Some [\<lparr>Level = INFO, Caller = ''main'', Path = ''/x'', File = ''m.go'',
        Line = 11, Message = ''ok''\<rparr>]\<rparr>] \<and>
   go_len (Entries \<lparr>Entries = Some [\<lparr>Level = INFO, Caller = ''main'', Path = ''/x'',
        File = ''m.go'', Line = 11, Message = ''ok''\<rparr>]\<rparr>) > 0"
proof -
  define e where "e = \<lparr>Level = INFO, Caller = ''main'', Path = ''/x'', File = ''m.go'',
    Line = 11, Message = ''ok''\<rparr>"
  define post :: http_post where "post = (\<lambda>u d. None)"
  define s1 where "s1 = startClient post ''http://h'' 100 [Recv e]"
  define s0 where "s0 = startClient post ''http://h'' 100 []"
  have b1: "buffer s1 = \<lparr>Entries = Some [e]\<rparr>" and t1: "sent s1 = []"
    by (simp_all add: s1_def startClient_def on_entry_def go_append_def go_len_def)
  have b0: "buffer s0 = \<lparr>Entries = None\<rparr>"
    by (simp add: s0_def startClient_def)
  have run: "sent (startClient post ''http://h'' 100 [Recv e, Tick, Tick]) = [\<lparr>Entries = Some [e]\<rparr>]"
    by (simp add: startClient_def on_entry_def on_tick_def go_append_def go_len_def reslice0_def)
  have p1: "go_len (Entries (buffer s1)) > 0"
    by (simp add: b1 go_len_def)
  have p0: "\<not> go_len (Entries (buffer s0)) > 0"
    by (simp add: b0 go_len_def)
  from flush_on_tick [of s1 post "''http://h''" 100 "[Recv e, Tick, Tick]"] p1 b1 t1 run
  have 1: "sent (on_tick post ''http://h'' s1) = [\<lparr>Entries = Some [e]\<rparr>]"
    and 3: "go_len (Entries \<lparr>Entries = Some [e]\<rparr>) > 0"
    by simp_all
  from flush_on_tick [of s0 post "''http://h''"] p0
  have 2: "on_tick post ''http://h'' s0 = s0"
    by blast
  from p1 1 p0 2 run 3 show ?thesis
    unfolding e_def post_def s1_def s0_def by blast
qed




end
